theory Spec2Isabelle
  imports Main "HOL-Library.Word" "HOL-Library.Sublist"
begin

section \<open>Messages and conversations\<close>

text \<open>
  The notebook \<^verbatim>\<open>demo.ipynb\<close> chains two chat models through a two-node graph. Its
  messages are LangChain message objects: a class (system, human, AI), a content that is
  either a text or a list of content blocks, an optional name and an optional identifier.
\<close>

datatype msg_class = System | Human | AI

datatype block = ImageUrl string | TextBlock string
  \<comment> \<open>\<^verbatim>\<open>{"type": "image_url", "image_url": {"url": u}}\<close> is \<open>ImageUrl u\<close>\<close>

datatype content = Str string | Blocks "block list"

record message =
  msg_class :: msg_class
  msg_content :: content
  msg_name :: "string option"
  msg_id :: "string option"

text \<open>The constructors as the notebook calls them: no identifier is passed, so it is None.\<close>

definition HumanMessage :: "content \<Rightarrow> string option \<Rightarrow> message" where
  "HumanMessage c n = \<lparr>msg_class = Human, msg_content = c, msg_name = n, msg_id = None\<rparr>"

definition SystemMessage :: "string \<Rightarrow> message" where
  "SystemMessage t = \<lparr>msg_class = System, msg_content = Str t, msg_name = None, msg_id = None\<rparr>"

text \<open>\<^verbatim>\<open>class State(TypedDict): messages: Annotated[list, add_messages]\<close>\<close>

record state =
  messages :: "message list"

section \<open>The outside world\<close>

text \<open>
  Two things the notebook does not decide are parameters of the model: what the Ollama
  endpoint answers (a text, or an exception) for a model name and a list of messages, and
  the identifiers that \<^verbatim>\<open>uuid.uuid4()\<close> draws, as the sequence of its results. The world
  counts the identifiers drawn so far and logs every request sent to the endpoint.
\<close>

datatype error =
    ModelError string
  | TemplateError
  | ValueError string
  | IndexError

record env =
  ollama :: "string \<Rightarrow> message list \<Rightarrow> error + string"
  uuid4 :: "nat \<Rightarrow> string"

record world =
  uuid_count :: nat
  calls :: "(string \<times> message list) list"

section \<open>Agents\<close>

text \<open>
  \<^verbatim>\<open>create_agent(llm, system_prompt)\<close> returns \<^verbatim>\<open>prompt | llm\<close>: a chat prompt template of
  a system entry and a placeholder for the messages, piped into the chat model.
\<close>

datatype template_item = SystemTemplate string | MessagesPlaceholder string

record chat_ollama =
  model :: string

record agent =
  seq_prompt :: "template_item list"
  seq_llm :: chat_ollama

definition ChatOllama :: "string \<Rightarrow> chat_ollama" where
  "ChatOllama m = \<lparr>model = m\<rparr>"

definition create_agent :: "chat_ollama \<Rightarrow> string \<Rightarrow> agent" where
  "create_agent llm system_prompt =
     \<lparr>seq_prompt = [SystemTemplate system_prompt, MessagesPlaceholder ''messages''],
      seq_llm = llm\<rparr>"

text \<open>
  Formatting the template. A system entry is a format string; one without braces has no
  replacement field and no escape, and formats to itself. The notebook's prompts have no
  brace; a template with one is refused here rather than interpreted. The placeholder
  expands to the messages the chain was invoked with.
\<close>

definition literal_template :: "string \<Rightarrow> bool" where
  "literal_template t = (CHR ''{'' \<notin> set t \<and> CHR ''}'' \<notin> set t)"

fun format_item :: "template_item \<Rightarrow> message list \<Rightarrow> error + message list" where
  "format_item (SystemTemplate t) msgs =
     (if literal_template t then Inr [SystemMessage t] else Inl TemplateError)"
| "format_item (MessagesPlaceholder v) msgs = Inr msgs"

fun format_messages :: "template_item list \<Rightarrow> message list \<Rightarrow> error + message list" where
  "format_messages [] msgs = Inr []"
| "format_messages (it # its) msgs =
     (case format_item it msgs of
        Inl e \<Rightarrow> Inl e
      | Inr ms \<Rightarrow>
          (case format_messages its msgs of
             Inl e \<Rightarrow> Inl e
           | Inr ms' \<Rightarrow> Inr (ms @ ms')))"

text \<open>
  \<^verbatim>\<open>agent.invoke(messages)\<close>: format the prompt, send it to the model, return the content
  of the reply (the only part of the reply that \<^verbatim>\<open>agent_node\<close> reads). The request is
  logged in the world. An exception of either step propagates.
\<close>

definition invoke :: "env \<Rightarrow> agent \<Rightarrow> message list \<Rightarrow> world \<Rightarrow> (error + string) \<times> world" where
  "invoke env agent msgs w =
     (case format_messages (seq_prompt agent) msgs of
        Inl e \<Rightarrow> (Inl e, w)
      | Inr p \<Rightarrow>
          (ollama env (model (seq_llm agent)) p,
           w\<lparr>calls := calls w @ [(model (seq_llm agent), p)]\<rparr>))"

text \<open>
  \<^verbatim>\<open>
  def agent_node(state, agent, name):
      result = agent.invoke(state["messages"])
      return {"messages": [HumanMessage(content=result.content, name=name)]}
  \<close>
  The state is a Python dictionary holding the conversation's list, which a node could
  change in place: the model returns the state next to the result, as the node leaves it.
\<close>

definition agent_node ::
  "env \<Rightarrow> state \<Rightarrow> agent \<Rightarrow> string \<Rightarrow> world \<Rightarrow> (error + state) \<times> state \<times> world" where
  "agent_node env state agent name w =
     (case invoke env agent (messages state) w of
        (Inl e, w') \<Rightarrow> (Inl e, state, w')
      | (Inr result_content, w') \<Rightarrow>
          (Inr \<lparr>messages = [HumanMessage (Str result_content) (Some name)]\<rparr>, state, w'))"

section \<open>The reducer of the messages channel\<close>

text \<open>
  \<^verbatim>\<open>add_messages(left, right)\<close> of LangGraph: every message without an identifier gets a
  fresh one from \<^verbatim>\<open>uuid4\<close>, first those of \<open>left\<close>, then those of \<open>right\<close>; then each message
  of \<open>right\<close> replaces the message of \<open>left\<close> that has its identifier, or is appended when
  there is none. (Removal messages, which the notebook never builds, are not a message
  class of this model.)
\<close>

fun assign_ids :: "(nat \<Rightarrow> string) \<Rightarrow> message list \<Rightarrow> nat \<Rightarrow> message list \<times> nat" where
  "assign_ids gen [] k = ([], k)"
| "assign_ids gen (m # ms) k =
     (case msg_id m of
        None \<Rightarrow>
          (case assign_ids gen ms (Suc k) of
             (ms', k') \<Rightarrow> (m\<lparr>msg_id := Some (gen k)\<rparr> # ms', k'))
      | Some i \<Rightarrow>
          (case assign_ids gen ms k of
             (ms', k') \<Rightarrow> (m # ms', k')))"

text \<open>\<^verbatim>\<open>{m.id: i for i, m in enumerate(left)}\<close>: a later message overwrites an earlier one.\<close>

fun left_idx_by_id :: "nat \<Rightarrow> message list \<Rightarrow> (string option \<rightharpoonup> nat) \<Rightarrow> (string option \<rightharpoonup> nat)" where
  "left_idx_by_id i [] d = d"
| "left_idx_by_id i (m # ms) d = left_idx_by_id (Suc i) ms (d(msg_id m \<mapsto> i))"

fun merge_right :: "(string option \<rightharpoonup> nat) \<Rightarrow> message list \<Rightarrow> message list \<Rightarrow> message list" where
  "merge_right idx merged [] = merged"
| "merge_right idx merged (m # ms) =
     (case idx (msg_id m) of
        Some existing_idx \<Rightarrow> merge_right idx (merged[existing_idx := m]) ms
      | None \<Rightarrow> merge_right idx (merged @ [m]) ms)"

definition add_messages ::
  "(nat \<Rightarrow> string) \<Rightarrow> message list \<Rightarrow> message list \<Rightarrow> nat \<Rightarrow> message list \<times> nat" where
  "add_messages gen left right k =
     (case assign_ids gen left k of
        (left', k1) \<Rightarrow>
          (case assign_ids gen right k1 of
             (right', k2) \<Rightarrow>
               (merge_right (left_idx_by_id 0 left' Map.empty) left' right', k2)))"

text \<open>Writing an update to the state: the channel's new value is the reducer's result.\<close>

definition update_channel :: "env \<Rightarrow> state \<Rightarrow> state \<Rightarrow> world \<Rightarrow> state \<times> world" where
  "update_channel env st upd w =
     (case add_messages (uuid4 env) (messages st) (messages upd) (uuid_count w) of
        (ms, k) \<Rightarrow> (\<lparr>messages = ms\<rparr>, w\<lparr>uuid_count := k\<rparr>))"

section \<open>The graph\<close>

text \<open>
  A node of the notebook is \<^verbatim>\<open>functools.partial(agent_node, agent=..., name=...)\<close>: the
  function with two of its arguments bound. The builder collects named nodes and edges
  in the order of the calls.
\<close>

record partial_node =
  bound_agent :: agent
  bound_name :: string

record state_graph =
  nodes :: "(string \<times> partial_node) list"
  edges :: "(string \<times> string) list"

definition START :: string where
  "START = ''__start__''"

definition END :: string where
  "END = ''__end__''"

definition StateGraph :: state_graph where
  "StateGraph = \<lparr>nodes = [], edges = []\<rparr>"

definition add_node :: "string \<Rightarrow> partial_node \<Rightarrow> state_graph \<Rightarrow> state_graph" where
  "add_node n p g = g\<lparr>nodes := nodes g @ [(n, p)]\<rparr>"

definition add_edge :: "string \<Rightarrow> string \<Rightarrow> state_graph \<Rightarrow> state_graph" where
  "add_edge a b g = g\<lparr>edges := edges g @ [(a, b)]\<rparr>"

text \<open>
  \<^verbatim>\<open>compile()\<close> validates the builder: node names are distinct and not reserved, every
  edge starts at START or a node and ends at END or a node, and START has an edge.
\<close>

definition compile :: "state_graph \<Rightarrow> error + state_graph" where
  "compile g =
     (let names = map fst (nodes g) in
      if distinct names \<and> START \<notin> set names \<and> END \<notin> set names
      then
        if list_all (\<lambda>(a, b). a \<in> set (START # names) \<and> b \<in> set (END # names)) (edges g)
        then
          if START \<in> set (map fst (edges g)) then Inr g
          else Inl (ValueError ''entrypoint'')
        else Inl (ValueError ''edge'')
      else Inl (ValueError ''node''))"

text \<open>
  Running the compiled graph, in supersteps. A step runs the triggered nodes on the
  current state, in the order the nodes were added; when all have returned, their updates
  are written through the reducer and each is emitted as an event \<^verbatim>\<open>{node: update}\<close>; the
  nodes triggered next are those with an edge from a node that ran. An exception in a
  node ends the run at once, with nothing of that step written. The run is over when no
  node is triggered, and fails when \<^verbatim>\<open>recursion_limit\<close> steps (25 by default) did not
  get there.
\<close>

datatype outcome =
    Completed
  | NodeRaised string error
  | GraphRecursionError
  | CompileRaised error

record run =
  events :: "(string \<times> state) list"
  history :: "state list"
  outcome :: outcome

definition recursion_limit :: nat where
  "recursion_limit = 25"

definition triggered :: "state_graph \<Rightarrow> string list \<Rightarrow> string list" where
  "triggered g sources =
     filter (\<lambda>n. list_ex (\<lambda>(a, b). a \<in> set sources \<and> b = n) (edges g)) (map fst (nodes g))"

fun run_tasks ::
  "env \<Rightarrow> state_graph \<Rightarrow> string list \<Rightarrow> state \<Rightarrow> world
    \<Rightarrow> (string \<times> error + (string \<times> state) list) \<times> state \<times> world" where
  "run_tasks env g [] st w = (Inr [], st, w)"
| "run_tasks env g (n # ns) st w =
     (case map_of (nodes g) n of
        None \<Rightarrow> (Inl (n, ValueError ''node''), st, w)
      | Some p \<Rightarrow>
          (case agent_node env st (bound_agent p) (bound_name p) w of
             (Inl e, st', w') \<Rightarrow> (Inl (n, e), st', w')
           | (Inr upd, st', w') \<Rightarrow>
               (case run_tasks env g ns st' w' of
                  (Inl f, st'', w'') \<Rightarrow> (Inl f, st'', w'')
                | (Inr upds, st'', w'') \<Rightarrow> (Inr ((n, upd) # upds), st'', w''))))"

fun apply_writes :: "env \<Rightarrow> state \<Rightarrow> (string \<times> state) list \<Rightarrow> world \<Rightarrow> state \<times> world" where
  "apply_writes env st [] w = (st, w)"
| "apply_writes env st ((n, upd) # upds) w =
     (case update_channel env st upd w of
        (st', w') \<Rightarrow> apply_writes env st' upds w')"

fun pregel_loop ::
  "nat \<Rightarrow> env \<Rightarrow> state_graph \<Rightarrow> string list \<Rightarrow> state \<Rightarrow> run \<Rightarrow> world \<Rightarrow> run \<times> world" where
  "pregel_loop fuel env g [] st r w = (r\<lparr>outcome := Completed\<rparr>, w)"
| "pregel_loop 0 env g (n # ns) st r w = (r\<lparr>outcome := GraphRecursionError\<rparr>, w)"
| "pregel_loop (Suc fuel) env g (n # ns) st r w =
     (case run_tasks env g (n # ns) st w of
        (Inl (failed, e), st', w') \<Rightarrow> (r\<lparr>outcome := NodeRaised failed e\<rparr>, w')
      | (Inr upds, st', w') \<Rightarrow>
          (case apply_writes env st' upds w' of
             (st'', w'') \<Rightarrow>
               pregel_loop fuel env g (triggered g (n # ns)) st''
                 (r\<lparr>events := events r @ upds, history := history r @ [st'']\<rparr>) w''))"

text \<open>
  \<^verbatim>\<open>graph.stream(input)\<close>: the input is written to the empty channel through the reducer,
  then the nodes that START points to are triggered. The history of a run lists the
  state after the input was written and after each completed step.
\<close>

definition stream :: "env \<Rightarrow> state_graph \<Rightarrow> state \<Rightarrow> world \<Rightarrow> run \<times> world" where
  "stream env g input w =
     (case update_channel env \<lparr>messages = []\<rparr> input w of
        (st0, w0) \<Rightarrow>
          pregel_loop recursion_limit env g (triggered g [START]) st0
            \<lparr>events = [], history = [st0], outcome = Completed\<rparr> w0)"

section \<open>The notebook's agents and graph\<close>

definition analysis_prompt :: string where
  "analysis_prompt =
     ''You are the Analyst Agent, an expert in visual analysis. '' @ [CHR 0x0A] @
     ''Your task is to examine images in detail and provide a comprehensive description ''
       @ [CHR 0x0A] @
     ''of what you see. Describe the scene as thoroughly as possible''"

definition creative_prompt :: string where
  "creative_prompt =
     ''You are the Creator Agent, a talented poet and creative writer. '' @ [CHR 0x0A] @
     ''Your task is to take detailed descriptions of images provided by the Analyst Agent ''
       @ [CHR 0x0A] @
     ''and craft a funny poem based on the imagery and emotions conveyed. ''"

definition analysis_llm :: chat_ollama where
  "analysis_llm = ChatOllama ''moondream''"

definition creative_llm :: chat_ollama where
  "creative_llm = ChatOllama ''gemma2:2b''"

definition analysis_agent :: agent where
  "analysis_agent = create_agent analysis_llm creative_prompt"

definition creative_agent :: agent where
  "creative_agent = create_agent creative_llm creative_prompt"

definition analysis_node :: partial_node where
  "analysis_node = \<lparr>bound_agent = analysis_agent, bound_name = ''Analysis Agent''\<rparr>"

definition creative_node :: partial_node where
  "creative_node = \<lparr>bound_agent = creative_agent, bound_name = ''Creative Agent''\<rparr>"

definition graph_builder :: state_graph where
  "graph_builder =
     add_edge ''Creative Agent'' END
       (add_edge ''Analysis Agent'' ''Creative Agent''
         (add_edge START ''Analysis Agent''
           (add_node ''Creative Agent'' creative_node
             (add_node ''Analysis Agent'' analysis_node StateGraph))))"

definition graph :: "error + state_graph" where
  "graph = compile graph_builder"

section \<open>The image message and the run\<close>

text \<open>
  \<^verbatim>\<open>base64.b64encode\<close>: three bytes become four characters of the alphabet, six bits
  each; a last group of one or two bytes is padded with \<^verbatim>\<open>=\<close>.
\<close>

type_synonym byte = "8 word"

definition b64_alphabet :: string where
  "b64_alphabet = ''ABCDEFGHIJKLMNOPQRSTUVWXYZabcdefghijklmnopqrstuvwxyz0123456789+/''"

definition b64_char :: "nat \<Rightarrow> char" where
  "b64_char n = b64_alphabet ! (n mod 64)"

fun b64encode :: "byte list \<Rightarrow> string" where
  "b64encode [] = []"
| "b64encode [a] =
     [b64_char (unat a div 4), b64_char (unat a mod 4 * 16), CHR ''='', CHR ''='']"
| "b64encode [a, b] =
     [b64_char (unat a div 4), b64_char (unat a mod 4 * 16 + unat b div 16),
      b64_char (unat b mod 16 * 4), CHR ''='']"
| "b64encode (a # b # c # rest) =
     [b64_char (unat a div 4), b64_char (unat a mod 4 * 16 + unat b div 16),
      b64_char (unat b mod 16 * 4 + unat c div 64), b64_char (unat c mod 64)]
     @ b64encode rest"

text \<open>
  \<^verbatim>\<open>
  encoded_string = base64.b64encode(file.read()).decode("utf-8")
  message = HumanMessage(content=[{"type": "image_url",
      "image_url": {"url": f"data:image/jpeg;base64,{encoded_string}"}}])
  \<close>
  The media type is the constant \<^verbatim>\<open>image/jpeg\<close>.
\<close>

definition data_uri :: "byte list \<Rightarrow> string" where
  "data_uri file_bytes = ''data:image/jpeg;base64,'' @ b64encode file_bytes"

definition image_message :: "byte list \<Rightarrow> message" where
  "image_message file_bytes = HumanMessage (Blocks [ImageUrl (data_uri file_bytes)]) None"

text \<open>
  The reverse direction, which a reader of the message takes: the payload of a data URI
  is what stands between its first comma and the next, after a header
  \<^verbatim>\<open>data:<mime-type>;base64\<close>; it is decoded four characters at a time, and anything that
  is not padded base64 is refused.
\<close>

fun index_of :: "'a \<Rightarrow> 'a list \<Rightarrow> nat option" where
  "index_of x [] = None"
| "index_of x (y # ys) = (if x = y then Some 0 else map_option Suc (index_of x ys))"

definition b64_value :: "char \<Rightarrow> nat option" where
  "b64_value c = index_of c b64_alphabet"

fun b64decode :: "string \<Rightarrow> byte list option" where
  "b64decode (c0 # c1 # c2 # c3 # rest) =
     (case (b64_value c0, b64_value c1) of
        (Some s0, Some s1) \<Rightarrow>
          (if c2 = CHR ''='' then
             (if c3 = CHR ''='' \<and> rest = [] then Some [of_nat (s0 * 4 + s1 div 16)] else None)
           else
             (case b64_value c2 of
                None \<Rightarrow> None
              | Some s2 \<Rightarrow>
                  (if c3 = CHR ''='' then
                     (if rest = []
                      then Some [of_nat (s0 * 4 + s1 div 16), of_nat (s1 mod 16 * 16 + s2 div 4)]
                      else None)
                   else
                     (case b64_value c3 of
                        None \<Rightarrow> None
                      | Some s3 \<Rightarrow>
                          map_option
                            (\<lambda>bs. of_nat (s0 * 4 + s1 div 16)
                                 # of_nat (s1 mod 16 * 16 + s2 div 4)
                                 # of_nat (s2 mod 4 * 64 + s3) # bs)
                            (b64decode rest)))))
      | _ \<Rightarrow> None)"
| "b64decode [] = Some []"
| "b64decode _ = None"

definition split_data_uri :: "string \<Rightarrow> (string \<times> string) option" where
  "split_data_uri uri =
     (let header = takeWhile (\<lambda>c. c \<noteq> CHR '','') uri;
          after = drop (length header) uri;
          n = length header - 7
      in if take 5 header = ''data:'' \<and> 12 \<le> length header \<and> drop n header = '';base64''
            \<and> after \<noteq> []
         then Some (take (n - 5) (drop 5 header), takeWhile (\<lambda>c. c \<noteq> CHR '','') (tl after))
         else None)"

definition decode_data_uri :: "string \<Rightarrow> (string \<times> byte list) option" where
  "decode_data_uri uri =
     (case split_data_uri uri of
        None \<Rightarrow> None
      | Some (mime, payload) \<Rightarrow> map_option (Pair mime) (b64decode payload))"

text \<open>
  The last cell:
  \<^verbatim>\<open>
  for event in graph.stream({"messages": [message]}):
      for value in event.values():
          message = value["messages"][-1]
          print(f"---\n{message.name}: {message.content}")
  \<close>
\<close>

definition run_pipeline :: "env \<Rightarrow> message \<Rightarrow> world \<Rightarrow> run \<times> world" where
  "run_pipeline env message w =
     (case graph of
        Inl e \<Rightarrow> (\<lparr>events = [], history = [], outcome = CompileRaised e\<rparr>, w)
      | Inr g \<Rightarrow> stream env g \<lparr>messages = [message]\<rparr> w)"

fun printed :: "(string \<times> state) list \<Rightarrow> error + (string option \<times> content) list" where
  "printed [] = Inr []"
| "printed ((n, v) # evs) =
     (case messages v of
        [] \<Rightarrow> Inl IndexError
      | m # ms \<Rightarrow>
          (case printed evs of
             Inl e \<Rightarrow> Inl e
           | Inr out \<Rightarrow> Inr ((msg_name (last (m # ms)), msg_content (last (m # ms))) # out)))"

section \<open>Identifiers and stubbed endpoints\<close>

text \<open>
  The identifiers of the three messages of a run, in the order of the conversation: the
  one the initial message carries or is given when the input is written, then the two
  drawn for the messages of the nodes. That \<^verbatim>\<open>uuid4\<close> does not repeat an identifier is a
  property of the outside world; it is stated as the distinctness of this list.
\<close>

definition run_ids :: "env \<Rightarrow> world \<Rightarrow> message \<Rightarrow> string list" where
  "run_ids env w m0 =
     (case msg_id m0 of
        None \<Rightarrow>
          [uuid4 env (uuid_count w), uuid4 env (uuid_count w + 1), uuid4 env (uuid_count w + 2)]
      | Some i \<Rightarrow> [i, uuid4 env (uuid_count w), uuid4 env (uuid_count w + 1)])"

text \<open>
  The endpoint of the example scenario: the captioning model answers a fixed caption and
  the text model a fixed poem, whatever they are asked. An endpoint that is down raises
  on every request.
\<close>

definition stub_ollama :: "string \<Rightarrow> message list \<Rightarrow> error + string" where
  "stub_ollama m p =
     (if m = ''moondream'' then Inr ''a small hedgehog on grass''
      else if m = ''gemma2:2b'' then Inr ''Quills like stars...''
      else Inl (ModelError ''model not found''))"

definition stub_env :: env where
  "stub_env = \<lparr>ollama = stub_ollama, uuid4 = (\<lambda>n. replicate (Suc n) CHR ''u'')\<rparr>"

definition down_env :: env where
  "down_env =
     \<lparr>ollama = (\<lambda>m p. Inl (ModelError ''connection refused'')),
      uuid4 = (\<lambda>n. replicate (Suc n) CHR ''u'')\<rparr>"

definition new_world :: world where
  "new_world = \<lparr>uuid_count = 0, calls = []\<rparr>"

definition jpeg_head :: "byte list" where
  "jpeg_head = [0xFF, 0xD8, 0xFF, 0xE0]"

section \<open>The graph of the notebook, step by step\<close>

lemma graph_compiles: "graph = Inr graph_builder"
  by (simp add: graph_def compile_def graph_builder_def add_edge_def add_node_def
      StateGraph_def START_def END_def)

lemma nodes_graph_builder:
  "nodes graph_builder = [(''Analysis Agent'', analysis_node), (''Creative Agent'', creative_node)]"
  by (simp add: graph_builder_def add_edge_def add_node_def StateGraph_def)

lemma edges_graph_builder:
  "edges graph_builder =
     [(START, ''Analysis Agent''), (''Analysis Agent'', ''Creative Agent''),
      (''Creative Agent'', END)]"
  by (simp add: graph_builder_def add_edge_def add_node_def StateGraph_def)

lemma triggered_graph_builder:
  "triggered graph_builder [START] = [''Analysis Agent'']"
  "triggered graph_builder [''Analysis Agent''] = [''Creative Agent'']"
  "triggered graph_builder [''Creative Agent''] = []"
  by (simp_all add: triggered_def nodes_graph_builder edges_graph_builder START_def END_def)

lemma literal_creative_prompt: "literal_template creative_prompt"
  by (simp add: literal_template_def creative_prompt_def)

lemma invoke_create_agent:
  "literal_template t \<Longrightarrow>
   invoke env (create_agent llm t) msgs w =
     (ollama env (model llm) (SystemMessage t # msgs),
      w\<lparr>calls := calls w @ [(model llm, SystemMessage t # msgs)]\<rparr>)"
  by (simp add: invoke_def create_agent_def)

lemma agent_node_create_agent:
  "literal_template t \<Longrightarrow>
   agent_node env st (create_agent llm t) name w =
     (case ollama env (model llm) (SystemMessage t # messages st) of
        Inl e \<Rightarrow> Inl e
      | Inr txt \<Rightarrow> Inr \<lparr>messages = [HumanMessage (Str txt) (Some name)]\<rparr>,
      st,
      w\<lparr>calls := calls w @ [(model llm, SystemMessage t # messages st)]\<rparr>)"
  by (simp add: agent_node_def invoke_create_agent split: sum.splits)

lemma assign_ids_all_set:
  "list_all (\<lambda>m. msg_id m \<noteq> None) ms \<Longrightarrow> assign_ids gen ms k = (ms, k)"
  by (induction ms) auto

lemma left_idx_by_id_None:
  "d i = None \<Longrightarrow> i \<notin> msg_id ` set ms \<Longrightarrow> left_idx_by_id n ms d i = None"
  by (induction ms arbitrary: n d) auto

lemma add_messages_append:
  assumes "list_all (\<lambda>m. msg_id m \<noteq> None) left"
    and "Some (gen k) \<notin> msg_id ` set left"
    and "msg_id m = None"
  shows "add_messages gen left [m] k = (left @ [m\<lparr>msg_id := Some (gen k)\<rparr>], Suc k)"
  using assms by (simp add: add_messages_def assign_ids_all_set left_idx_by_id_None)

lemma write_input:
  "update_channel env \<lparr>messages = []\<rparr> \<lparr>messages = [m0]\<rparr> w =
     (\<lparr>messages = [m0\<lparr>msg_id := Some (hd (run_ids env w m0))\<rparr>]\<rparr>,
      w\<lparr>uuid_count := (case msg_id m0 of None \<Rightarrow> Suc (uuid_count w) | Some i \<Rightarrow> uuid_count w)\<rparr>)"
  by (cases "msg_id m0") (simp_all add: update_channel_def add_messages_def run_ids_def)

lemma pregel_step_single:
  assumes "map_of (nodes g) n = Some p" and "0 < fuel"
  shows "pregel_loop fuel env g [n] st r w =
     (case agent_node env st (bound_agent p) (bound_name p) w of
        (Inl e, st', w') \<Rightarrow> (r\<lparr>outcome := NodeRaised n e\<rparr>, w')
      | (Inr upd, st', w') \<Rightarrow>
          (case update_channel env st' upd w' of
             (st'', w'') \<Rightarrow>
               pregel_loop (fuel - 1) env g (triggered g [n]) st''
                 (r\<lparr>events := events r @ [(n, upd)], history := history r @ [st'']\<rparr>) w''))"
proof -
  from assms(2) obtain k where "fuel = Suc k"
    by (cases fuel) auto
  with assms(1) show ?thesis
    by (simp split: prod.splits sum.splits)
qed

lemma map_of_graph_builder:
  "map_of (nodes graph_builder) ''Analysis Agent'' = Some analysis_node"
  "map_of (nodes graph_builder) ''Creative Agent'' = Some creative_node"
  by (simp_all add: nodes_graph_builder)

lemma analysis_step:
  "agent_node env st (bound_agent analysis_node) (bound_name analysis_node) w =
     (case ollama env ''moondream'' (SystemMessage creative_prompt # messages st) of
        Inl e \<Rightarrow> Inl e
      | Inr txt \<Rightarrow> Inr \<lparr>messages = [HumanMessage (Str txt) (Some ''Analysis Agent'')]\<rparr>,
      st,
      w\<lparr>calls := calls w @ [(''moondream'', SystemMessage creative_prompt # messages st)]\<rparr>)"
  by (simp add: analysis_node_def analysis_agent_def analysis_llm_def ChatOllama_def
      agent_node_create_agent literal_creative_prompt)

lemma creative_step:
  "agent_node env st (bound_agent creative_node) (bound_name creative_node) w =
     (case ollama env ''gemma2:2b'' (SystemMessage creative_prompt # messages st) of
        Inl e \<Rightarrow> Inl e
      | Inr txt \<Rightarrow> Inr \<lparr>messages = [HumanMessage (Str txt) (Some ''Creative Agent'')]\<rparr>,
      st,
      w\<lparr>calls := calls w @ [(''gemma2:2b'', SystemMessage creative_prompt # messages st)]\<rparr>)"
  by (simp add: creative_node_def creative_agent_def creative_llm_def ChatOllama_def
      agent_node_create_agent literal_creative_prompt)

lemma run_pipeline_unfold:
  assumes "update_channel env \<lparr>messages = []\<rparr> \<lparr>messages = [m0]\<rparr> w = (st0, w0)"
  shows "run_pipeline env m0 w =
     (let p1 = SystemMessage creative_prompt # messages st0;
          w1 = w0\<lparr>calls := calls w0 @ [(''moondream'', p1)]\<rparr>
      in case ollama env ''moondream'' p1 of
           Inl e \<Rightarrow>
             (\<lparr>events = [], history = [st0], outcome = NodeRaised ''Analysis Agent'' e\<rparr>, w1)
         | Inr t1 \<Rightarrow>
             (let u1 = \<lparr>messages = [HumanMessage (Str t1) (Some ''Analysis Agent'')]\<rparr>
              in case update_channel env st0 u1 w1 of
                   (st1, w1') \<Rightarrow>
                     (let p2 = SystemMessage creative_prompt # messages st1;
                          w2 = w1'\<lparr>calls := calls w1' @ [(''gemma2:2b'', p2)]\<rparr>
                      in case ollama env ''gemma2:2b'' p2 of
                           Inl e \<Rightarrow>
                             (\<lparr>events = [(''Analysis Agent'', u1)], history = [st0, st1],
                               outcome = NodeRaised ''Creative Agent'' e\<rparr>, w2)
                         | Inr t2 \<Rightarrow>
                             (let u2 = \<lparr>messages = [HumanMessage (Str t2) (Some ''Creative Agent'')]\<rparr>
                              in case update_channel env st1 u2 w2 of
                                   (st2, w2') \<Rightarrow>
                                     (\<lparr>events = [(''Analysis Agent'', u1), (''Creative Agent'', u2)],
                                       history = [st0, st1, st2], outcome = Completed\<rparr>, w2')))))"
proof -
  show ?thesis
    using assms
    by (simp add: run_pipeline_def graph_compiles stream_def recursion_limit_def
        triggered_graph_builder
        pregel_step_single map_of_graph_builder analysis_step creative_step Let_def
        split: sum.splits prod.splits)
qed


lemma update_channel_append:
  assumes "list_all (\<lambda>m. msg_id m \<noteq> None) (messages st)"
    and "Some (uuid4 env (uuid_count w)) \<notin> msg_id ` set (messages st)"
    and "msg_id m = None"
  shows "update_channel env st \<lparr>messages = [m]\<rparr> w =
           (\<lparr>messages = messages st @ [m\<lparr>msg_id := Some (uuid4 env (uuid_count w))\<rparr>]\<rparr>,
            w\<lparr>uuid_count := Suc (uuid_count w)\<rparr>)"
  using assms by (simp add: update_channel_def add_messages_append)

lemma msg_id_HumanMessage: "msg_id (HumanMessage c n) = None"
  by (simp add: HumanMessage_def)

lemma run_pipeline_fresh:
  assumes fresh: "distinct (run_ids env w m0)"
  shows "run_pipeline env m0 w =
     (let m0' = m0\<lparr>msg_id := Some (run_ids env w m0 ! 0)\<rparr>;
          k0 = (case msg_id m0 of None \<Rightarrow> Suc (uuid_count w) | Some i \<Rightarrow> uuid_count w);
          p1 = [SystemMessage creative_prompt, m0'];
          log1 = calls w @ [(''moondream'', p1)]
      in case ollama env ''moondream'' p1 of
           Inl e \<Rightarrow>
             (\<lparr>events = [], history = [\<lparr>messages = [m0']\<rparr>],
               outcome = NodeRaised ''Analysis Agent'' e\<rparr>,
              w\<lparr>uuid_count := k0, calls := log1\<rparr>)
         | Inr t1 \<Rightarrow>
             (let u1 = HumanMessage (Str t1) (Some ''Analysis Agent'');
                  a = u1\<lparr>msg_id := Some (run_ids env w m0 ! 1)\<rparr>;
                  p2 = [SystemMessage creative_prompt, m0', a];
                  log2 = log1 @ [(''gemma2:2b'', p2)]
              in case ollama env ''gemma2:2b'' p2 of
                   Inl e \<Rightarrow>
                     (\<lparr>events = [(''Analysis Agent'', \<lparr>messages = [u1]\<rparr>)],
                       history = [\<lparr>messages = [m0']\<rparr>, \<lparr>messages = [m0', a]\<rparr>],
                       outcome = NodeRaised ''Creative Agent'' e\<rparr>,
                      w\<lparr>uuid_count := Suc k0, calls := log2\<rparr>)
                 | Inr t2 \<Rightarrow>
                     (let u2 = HumanMessage (Str t2) (Some ''Creative Agent'');
                          c = u2\<lparr>msg_id := Some (run_ids env w m0 ! 2)\<rparr>
                      in (\<lparr>events = [(''Analysis Agent'', \<lparr>messages = [u1]\<rparr>),
                                     (''Creative Agent'', \<lparr>messages = [u2]\<rparr>)],
                           history = [\<lparr>messages = [m0']\<rparr>, \<lparr>messages = [m0', a]\<rparr>,
                                      \<lparr>messages = [m0', a, c]\<rparr>],
                           outcome = Completed\<rparr>,
                          w\<lparr>uuid_count := Suc (Suc k0), calls := log2\<rparr>))))"
proof (cases "msg_id m0")
  case None
  with fresh have "uuid4 env (Suc (uuid_count w)) \<noteq> uuid4 env (uuid_count w)"
    "uuid4 env (Suc (Suc (uuid_count w))) \<noteq> uuid4 env (uuid_count w)"
    "uuid4 env (Suc (Suc (uuid_count w))) \<noteq> uuid4 env (Suc (uuid_count w))"
    by (auto simp: run_ids_def)
  with None show ?thesis
    by (simp add: run_pipeline_unfold [OF write_input] update_channel_append run_ids_def
        Let_def msg_id_HumanMessage split: sum.splits)
next
  case (Some i)
  with fresh have "uuid4 env (uuid_count w) \<noteq> i"
    "uuid4 env (Suc (uuid_count w)) \<noteq> i"
    "uuid4 env (Suc (uuid_count w)) \<noteq> uuid4 env (uuid_count w)"
    by (auto simp: run_ids_def)
  with Some show ?thesis
    by (simp add: run_pipeline_unfold [OF write_input] update_channel_append run_ids_def
        Let_def msg_id_HumanMessage split: sum.splits)
qed


section \<open>Runs of the pipeline\<close>

lemma calls_update_channel:
  "update_channel env st upd w = (st', w') \<Longrightarrow> calls w' = calls w"
  by (auto simp: update_channel_def split: prod.splits)

lemma stub_run_ids: "run_ids stub_env new_world (image_message bs) = [''u'', ''uu'', ''uuu'']"
  by (simp add: run_ids_def stub_env_def new_world_def image_message_def HumanMessage_def)

lemma down_run_ids: "run_ids down_env new_world (image_message bs) = [''u'', ''uu'', ''uuu'']"
  by (simp add: run_ids_def down_env_def new_world_def image_message_def HumanMessage_def)

lemma down_write_input:
  "update_channel down_env \<lparr>messages = []\<rparr> \<lparr>messages = [image_message bs]\<rparr> new_world =
     (\<lparr>messages = [(image_message bs)\<lparr>msg_id := Some ''u''\<rparr>]\<rparr>, new_world\<lparr>uuid_count := 1\<rparr>)"
  by (simp add: write_input down_run_ids) (simp add: image_message_def HumanMessage_def new_world_def)

lemma left_idx_by_id_range:
  "left_idx_by_id n ms d i = Some j \<Longrightarrow> d i = Some j \<or> n \<le> j \<and> j < n + length ms"
proof (induction ms arbitrary: n d)
  case Nil
  then show ?case by simp
next
  case (Cons m ms)
  from Cons.prems have "left_idx_by_id (Suc n) ms (d(msg_id m \<mapsto> n)) i = Some j"
    by simp
  from Cons.IH [OF this] show ?case
    by (auto split: if_splits)
qed

lemma merge_right_single_mem: "m \<in> set (merge_right (left_idx_by_id 0 left Map.empty) left [m])"
proof (cases "left_idx_by_id 0 left Map.empty (msg_id m)")
  case None
  then show ?thesis by simp
next
  case (Some j)
  with left_idx_by_id_range [OF Some] have "j < length left"
    by simp
  with Some show ?thesis
    by (simp add: set_update_memI)
qed

lemma update_channel_keeps_new:
  assumes "update_channel env st \<lparr>messages = [m]\<rparr> w = (st', w')" and "msg_id m = None"
  shows "\<exists>i. m\<lparr>msg_id := Some i\<rparr> \<in> set (messages st')"
proof -
  obtain left k1 where left: "assign_ids (uuid4 env) (messages st) (uuid_count w) = (left, k1)"
    by (cases "assign_ids (uuid4 env) (messages st) (uuid_count w)")
  with assms have "messages st' =
      merge_right (left_idx_by_id 0 left Map.empty) left [m\<lparr>msg_id := Some (uuid4 env k1)\<rparr>]"
    by (auto simp: update_channel_def add_messages_def)
  then show ?thesis
    using merge_right_single_mem [of "m\<lparr>msg_id := Some (uuid4 env k1)\<rparr>" left] by auto
qed

lemma stub_run:
  "run_pipeline stub_env (image_message bs) new_world =
     (let m0 = (image_message bs)\<lparr>msg_id := Some ''u''\<rparr>;
          u1 = HumanMessage (Str ''a small hedgehog on grass'') (Some ''Analysis Agent'');
          u2 = HumanMessage (Str ''Quills like stars...'') (Some ''Creative Agent'');
          a = u1\<lparr>msg_id := Some ''uu''\<rparr>;
          c = u2\<lparr>msg_id := Some ''uuu''\<rparr>
      in (\<lparr>events = [(''Analysis Agent'', \<lparr>messages = [u1]\<rparr>),
                      (''Creative Agent'', \<lparr>messages = [u2]\<rparr>)],
            history = [\<lparr>messages = [m0]\<rparr>, \<lparr>messages = [m0, a]\<rparr>, \<lparr>messages = [m0, a, c]\<rparr>],
            outcome = Completed\<rparr>,
          \<lparr>uuid_count = 3,
            calls = [(''moondream'', [SystemMessage creative_prompt, m0]),
                     (''gemma2:2b'', [SystemMessage creative_prompt, m0, a])]\<rparr>))"
proof -
  have "distinct (run_ids stub_env new_world (image_message bs))"
    by (simp add: stub_run_ids)
  note run = run_pipeline_fresh [OF this, unfolded stub_run_ids]
  have caption: "ollama stub_env ''moondream'' p = Inr ''a small hedgehog on grass''" for p
    by (simp add: stub_env_def stub_ollama_def)
  have poem: "ollama stub_env ''gemma2:2b'' p = Inr ''Quills like stars...''" for p
    by (simp add: stub_env_def stub_ollama_def)
  have start: "msg_id (image_message bs) = None" "uuid_count new_world = 0"
    "new_world\<lparr>uuid_count := k, calls := calls new_world @ l\<rparr> = \<lparr>uuid_count = k, calls = l\<rparr>"
    for k l
    by (simp_all add: image_message_def HumanMessage_def new_world_def)
  show ?thesis
    by (simp add: run caption poem start Let_def)
qed

text \<open>
  C1. Whatever the initial message (an image message in particular) and whatever the
  endpoint answers: when the identifiers drawn are fresh, a run that completes leaves the
  conversation as the initial message followed by exactly two more, the first named
  ``Analysis Agent'' and the second named ``Creative Agent'', and emits one event for each
  node in that order. A run completes whenever the endpoint answers every request: the
  recursion limit is not reached.
\<close>

theorem full_run_appends_analysis_then_creative:
  assumes "distinct (run_ids env w m0)" and "run_pipeline env m0 w = (r, w')"
  shows "(outcome r = Completed \<longrightarrow>
           (\<exists>caption poem a c.
              a = (HumanMessage (Str caption) (Some ''Analysis Agent''))
                    \<lparr>msg_id := Some (run_ids env w m0 ! 1)\<rparr>
            \<and> c = (HumanMessage (Str poem) (Some ''Creative Agent''))
                    \<lparr>msg_id := Some (run_ids env w m0 ! 2)\<rparr>
            \<and> messages (hd (history r)) = [m0\<lparr>msg_id := Some (run_ids env w m0 ! 0)\<rparr>]
            \<and> messages (last (history r)) = messages (hd (history r)) @ [a, c]
            \<and> map fst (events r) = [''Analysis Agent'', ''Creative Agent'']))
       \<and> ((\<forall>m p. \<exists>t. ollama env m p = Inr t) \<longrightarrow> outcome r = Completed)"
proof (intro conjI impI)
  assume "outcome r = Completed"
  with assms(2) show "\<exists>caption poem a c.
              a = (HumanMessage (Str caption) (Some ''Analysis Agent''))
                    \<lparr>msg_id := Some (run_ids env w m0 ! 1)\<rparr>
            \<and> c = (HumanMessage (Str poem) (Some ''Creative Agent''))
                    \<lparr>msg_id := Some (run_ids env w m0 ! 2)\<rparr>
            \<and> messages (hd (history r)) = [m0\<lparr>msg_id := Some (run_ids env w m0 ! 0)\<rparr>]
            \<and> messages (last (history r)) = messages (hd (history r)) @ [a, c]
            \<and> map fst (events r) = [''Analysis Agent'', ''Creative Agent'']"
    by (auto simp: run_pipeline_fresh [OF assms(1)] Let_def split: sum.splits)
next
  assume ok: "\<forall>m p. \<exists>t. ollama env m p = Inr t"
  let ?m0 = "m0\<lparr>msg_id := Some (run_ids env w m0 ! 0)\<rparr>"
  from ok obtain t1 where t1: "ollama env ''moondream'' [SystemMessage creative_prompt, ?m0] = Inr t1"
    by blast
  let ?a = "(HumanMessage (Str t1) (Some ''Analysis Agent''))\<lparr>msg_id := Some (run_ids env w m0 ! 1)\<rparr>"
  from ok obtain t2 where
    t2: "ollama env ''gemma2:2b'' [SystemMessage creative_prompt, ?m0, ?a] = Inr t2"
    by blast
  from assms(2) t1 t2 show "outcome r = Completed"
    by (auto simp: run_pipeline_fresh [OF assms(1)] Let_def)
qed

theorem full_run_appends_analysis_then_creative_witness:
  "distinct (run_ids stub_env new_world (image_message jpeg_head))
   \<and> outcome (fst (run_pipeline stub_env (image_message jpeg_head) new_world)) = Completed
   \<and> (\<exists>a c. messages (last (history (fst (run_pipeline stub_env (image_message jpeg_head) new_world))))
              = [(image_message jpeg_head)\<lparr>msg_id := Some ''u''\<rparr>, a, c]
          \<and> msg_name a = Some ''Analysis Agent'' \<and> msg_name c = Some ''Creative Agent'')"
proof -
  obtain r w' where run: "run_pipeline stub_env (image_message jpeg_head) new_world = (r, w')"
    by fastforce
  have fresh: "distinct (run_ids stub_env new_world (image_message jpeg_head))"
    by (simp add: stub_run_ids)
  have finished: "outcome r = Completed"
    using run by (auto simp: stub_run Let_def)
  from full_run_appends_analysis_then_creative [OF fresh run] finished show ?thesis
    using run fresh by (auto simp: stub_run_ids HumanMessage_def)
qed

text \<open>
  C2. With fresh identifiers, the conversation after each stage of a run (the writing of
  the input, the Analyst step, the Creator step) is a strict prefix of the conversation
  after the next stage and is one message shorter, and there is one stage after the input
  for each node that completed. This holds for the runs that fail as for those that
  complete.
\<close>

theorem conversation_is_append_only:
  assumes "distinct (run_ids env w m0)" and "run_pipeline env m0 w = (r, w')"
    and "Suc N < length (history r)"
  shows "strict_prefix (messages (history r ! N)) (messages (history r ! Suc N))
       \<and> length (messages (history r ! Suc N)) = Suc (length (messages (history r ! N)))
       \<and> length (history r) = Suc (length (events r))"
proof -
  have "N = 0 \<or> N = 1 \<and> 2 < length (history r)" if "length (history r) \<le> 3"
    using that assms(3) by auto
  moreover have "length (history r) \<le> 3"
    using assms(2) by (auto simp: run_pipeline_fresh [OF assms(1)] Let_def split: sum.splits)
  ultimately have N: "N = 0 \<or> N = 1 \<and> 2 < length (history r)"
    by blast
  then show ?thesis
    using assms(2,3)
    by (auto simp: run_pipeline_fresh [OF assms(1)] Let_def split: sum.splits)
qed

theorem conversation_is_append_only_witness:
  "strict_prefix
     (messages (history (fst (run_pipeline stub_env (image_message jpeg_head) new_world)) ! 1))
     (messages (history (fst (run_pipeline stub_env (image_message jpeg_head) new_world)) ! 2))"
proof -
  obtain r w' where run: "run_pipeline stub_env (image_message jpeg_head) new_world = (r, w')"
    by fastforce
  have fresh: "distinct (run_ids stub_env new_world (image_message jpeg_head))"
    by (simp add: stub_run_ids)
  have len: "Suc 1 < length (history r)"
    using run by (auto simp: stub_run Let_def)
  from conversation_is_append_only [OF fresh run len] show ?thesis
    using run by (simp add: numeral_2_eq_2)
qed

text \<open>
  C3. When the request of the Analyst's model raises \<open>e\<close>, the run stops with \<open>e\<close> raised
  in the node ``Analysis Agent'': no event is emitted, the conversation holds the initial
  message only, and the one request the run has sent is the Analyst's, so the Creator's
  model was never called.
\<close>

theorem analyst_failure_aborts_run:
  assumes "update_channel env \<lparr>messages = []\<rparr> \<lparr>messages = [m0]\<rparr> w = (st0, w0)"
    and "ollama env (model analysis_llm) (SystemMessage creative_prompt # messages st0) = Inl e"
  shows "run_pipeline env m0 w =
           (\<lparr>events = [], history = [st0], outcome = NodeRaised ''Analysis Agent'' e\<rparr>,
            w0\<lparr>calls := calls w @
              [(model analysis_llm, SystemMessage creative_prompt # messages st0)]\<rparr>)
         \<and> model creative_llm
             \<notin> fst ` set (drop (length (calls w)) (calls (snd (run_pipeline env m0 w))))
         \<and> messages st0 = [m0\<lparr>msg_id := Some (hd (run_ids env w m0))\<rparr>]"
proof -
  have log: "calls w0 = calls w"
    using assms(1) by (rule calls_update_channel)
  have llm: "model analysis_llm = ''moondream''" "model creative_llm = ''gemma2:2b''"
    by (simp_all add: analysis_llm_def creative_llm_def ChatOllama_def)
  have run: "run_pipeline env m0 w =
           (\<lparr>events = [], history = [st0], outcome = NodeRaised ''Analysis Agent'' e\<rparr>,
            w0\<lparr>calls := calls w @
              [(model analysis_llm, SystemMessage creative_prompt # messages st0)]\<rparr>)"
    using assms(2) by (simp add: run_pipeline_unfold [OF assms(1)] llm log)
  moreover have "model creative_llm
      \<notin> fst ` set (drop (length (calls w)) (calls (snd (run_pipeline env m0 w))))"
    by (simp add: run llm)
  moreover have "messages st0 = [m0\<lparr>msg_id := Some (hd (run_ids env w m0))\<rparr>]"
    using assms(1) by (auto simp: write_input)
  ultimately show ?thesis by blast
qed

theorem analyst_failure_aborts_run_witness:
  "run_pipeline down_env (image_message jpeg_head) new_world =
     (\<lparr>events = [],
       history = [\<lparr>messages = [(image_message jpeg_head)\<lparr>msg_id := Some ''u''\<rparr>]\<rparr>],
       outcome = NodeRaised ''Analysis Agent'' (ModelError ''connection refused'')\<rparr>,
      \<lparr>uuid_count = 1,
       calls = [(''moondream'',
         [SystemMessage creative_prompt, (image_message jpeg_head)\<lparr>msg_id := Some ''u''\<rparr>])]\<rparr>)"
proof -
  have down: "ollama down_env (model analysis_llm)
      (SystemMessage creative_prompt
        # messages \<lparr>messages = [(image_message jpeg_head)\<lparr>msg_id := Some ''u''\<rparr>]\<rparr>) =
      Inl (ModelError ''connection refused'')"
    by (simp add: down_env_def)
  show ?thesis
    using analyst_failure_aborts_run [OF down_write_input down]
    by (simp add: new_world_def analysis_llm_def ChatOllama_def)
qed

text \<open>
  C4. In every run in which the Creator's model receives a request \<open>p\<close>: the Analyst's
  request came first and was answered with a caption; \<open>p\<close> is the system prompt followed by
  the conversation after the Analyst step, which holds the Analyst's message with that
  caption; and when the identifiers are fresh and the run completes, the final
  conversation is the initial message, the Analyst's message and the Creator's message, at
  the indices 0, 1 and 2.
\<close>

theorem creator_generates_from_analyst_output:
  assumes "run_pipeline env m0 w = (r, w')"
    and "(model creative_llm, p) \<in> set (drop (length (calls w)) (calls w'))"
  shows "\<exists>caption a.
           ollama env (model analysis_llm)
             [SystemMessage creative_prompt, m0\<lparr>msg_id := Some (hd (run_ids env w m0))\<rparr>]
             = Inr caption
         \<and> msg_class a = Human \<and> msg_name a = Some ''Analysis Agent''
         \<and> msg_content a = Str caption
         \<and> drop (length (calls w)) (calls w') =
             [(model analysis_llm,
               [SystemMessage creative_prompt, m0\<lparr>msg_id := Some (hd (run_ids env w m0))\<rparr>]),
              (model creative_llm, p)]
         \<and> p = SystemMessage creative_prompt # messages (history r ! 1)
         \<and> a \<in> set (messages (history r ! 1))
         \<and> (distinct (run_ids env w m0) \<and> outcome r = Completed \<longrightarrow>
              (\<exists>c. messages (last (history r)) =
                      [m0\<lparr>msg_id := Some (hd (run_ids env w m0))\<rparr>, a, c]
                 \<and> msg_name c = Some ''Creative Agent''))"
proof -
  let ?m0 = "m0\<lparr>msg_id := Some (hd (run_ids env w m0))\<rparr>"
  let ?p1 = "[SystemMessage creative_prompt, ?m0]"
  have llm: "model analysis_llm = ''moondream''" "model creative_llm = ''gemma2:2b''"
    by (simp_all add: analysis_llm_def creative_llm_def ChatOllama_def)
  show ?thesis
  proof (cases "ollama env ''moondream'' ?p1")
    case (Inl e)
    with assms have False
      by (simp add: run_pipeline_unfold [OF write_input] llm Let_def) auto
    then show ?thesis ..
  next
    case (Inr caption)
    let ?u1 = "HumanMessage (Str caption) (Some ''Analysis Agent'')"
    show ?thesis
    proof (cases "distinct (run_ids env w m0)")
      case True
      let ?a = "?u1\<lparr>msg_id := Some (run_ids env w m0 ! 1)\<rparr>"
      have hd0: "run_ids env w m0 ! 0 = hd (run_ids env w m0)"
        by (simp add: run_ids_def split: option.splits)
      from assms Inr True have
        "drop (length (calls w)) (calls w') = [(''moondream'', ?p1), (''gemma2:2b'', p)]
         \<and> p = SystemMessage creative_prompt # messages (history r ! 1)
         \<and> ?a \<in> set (messages (history r ! 1))
         \<and> (outcome r = Completed \<longrightarrow>
              (\<exists>c. messages (last (history r)) = [?m0, ?a, c]
                 \<and> msg_name c = Some ''Creative Agent''))"
        by (auto simp: run_pipeline_fresh [OF True] hd0 llm Let_def HumanMessage_def
            split: sum.splits)
      with Inr show ?thesis
        by (intro exI [of _ caption] exI [of _ ?a]) (simp add: llm HumanMessage_def)
    next
      case False
      obtain st1 w1 where st1: "update_channel env \<lparr>messages = [?m0]\<rparr> \<lparr>messages = [?u1]\<rparr>
          (w\<lparr>uuid_count := (case msg_id m0 of None \<Rightarrow> Suc (uuid_count w) | Some i \<Rightarrow> uuid_count w),
             calls := calls w @ [(''moondream'', ?p1)]\<rparr>) = (st1, w1)"
        by fastforce
      from update_channel_keeps_new [OF st1] obtain i where
        i: "?u1\<lparr>msg_id := Some i\<rparr> \<in> set (messages st1)"
        by (auto simp: HumanMessage_def)
      have log: "calls w1 = calls w @ [(''moondream'', ?p1)]"
        using calls_update_channel [OF st1] by simp
      from assms Inr st1 log have
        "drop (length (calls w)) (calls w') = [(''moondream'', ?p1), (''gemma2:2b'', p)]
         \<and> p = SystemMessage creative_prompt # messages (history r ! 1)
         \<and> history r ! 1 = st1"
        by (auto simp: run_pipeline_unfold [OF write_input] llm Let_def calls_update_channel
            split: sum.splits prod.splits)
      with Inr i False show ?thesis
        by (intro exI [of _ caption] exI [of _ "?u1\<lparr>msg_id := Some i\<rparr>"])
          (simp add: llm HumanMessage_def)
    qed
  qed
qed

theorem creator_generates_from_analyst_output_witness:
  "\<exists>a. msg_name a = Some ''Analysis Agent''
     \<and> msg_content a = Str ''a small hedgehog on grass''
     \<and> a \<in> set (messages
          (history (fst (run_pipeline stub_env (image_message jpeg_head) new_world)) ! 1))"
proof -
  obtain r w' where run: "run_pipeline stub_env (image_message jpeg_head) new_world = (r, w')"
    by fastforce
  let ?p = "[SystemMessage creative_prompt, (image_message jpeg_head)\<lparr>msg_id := Some ''u''\<rparr>,
    (HumanMessage (Str ''a small hedgehog on grass'') (Some ''Analysis Agent''))
      \<lparr>msg_id := Some ''uu''\<rparr>]"
  have "calls w' = [(''moondream'', butlast ?p), (''gemma2:2b'', ?p)]"
    using run by (auto simp: stub_run Let_def)
  then have called: "(model creative_llm, ?p) \<in> set (drop (length (calls new_world)) (calls w'))"
    by (simp add: new_world_def creative_llm_def ChatOllama_def)
  from creator_generates_from_analyst_output [OF run called] show ?thesis
    using run
    by (auto simp: stub_env_def stub_ollama_def analysis_llm_def ChatOllama_def)
qed

text \<open>
  C8. With the endpoint stubbed to answer the fixed caption and the fixed poem, a run on
  the image message of any file prints exactly the two pairs of name and content of the
  example scenario, whatever identifiers are drawn.
\<close>

theorem stubbed_run_prints_caption_then_poem:
  "printed (events (fst (run_pipeline \<lparr>ollama = stub_ollama, uuid4 = gen\<rparr>
      (image_message file_bytes) w))) =
     Inr [(Some ''Analysis Agent'', Str ''a small hedgehog on grass''),
          (Some ''Creative Agent'', Str ''Quills like stars...'')]"
  by (simp add: run_pipeline_unfold [OF write_input] stub_ollama_def Let_def HumanMessage_def
      split: prod.splits)

section \<open>One invocation of an agent\<close>



text \<open>
  C10. The message a node returns is a human message carrying the name the node was
  given. In a run every event holds one such message, named as its node; and with fresh
  identifiers every message of the conversation after the initial one is a human message
  with a name, so only the name tells the agents apart.
\<close>

theorem agent_messages_are_human_and_named:
  "(\<forall>upd state' w'. agent_node env state agent name w = (Inr upd, state', w') \<longrightarrow>
      (\<exists>text. messages upd = [\<lparr>msg_class = Human, msg_content = Str text,
                                msg_name = Some name, msg_id = None\<rparr>]))
   \<and> list_all (\<lambda>(node, upd). list_all (\<lambda>m. msg_class m = Human \<and> msg_name m = Some node)
                   (messages upd) \<and> length (messages upd) = 1)
        (events (fst (run_pipeline env m0 w)))
   \<and> (distinct (run_ids env w m0) \<longrightarrow>
        list_all (\<lambda>st. list_all (\<lambda>m. msg_class m = Human \<and> msg_name m \<noteq> None)
                   (tl (messages st)))
          (history (fst (run_pipeline env m0 w))))"
proof (intro conjI allI impI)
  fix upd state' w'
  assume "agent_node env state agent name w = (Inr upd, state', w')"
  then show "\<exists>text. messages upd = [\<lparr>msg_class = Human, msg_content = Str text,
      msg_name = Some name, msg_id = None\<rparr>]"
    by (auto simp: agent_node_def HumanMessage_def split: sum.splits prod.splits)
next
  show "list_all (\<lambda>(node, upd). list_all (\<lambda>m. msg_class m = Human \<and> msg_name m = Some node)
                   (messages upd) \<and> length (messages upd) = 1)
        (events (fst (run_pipeline env m0 w)))"
    by (simp add: run_pipeline_unfold [OF write_input] Let_def HumanMessage_def
        split: sum.splits prod.splits)
next
  assume fresh: "distinct (run_ids env w m0)"
  show "list_all (\<lambda>st. list_all (\<lambda>m. msg_class m = Human \<and> msg_name m \<noteq> None)
                   (tl (messages st)))
          (history (fst (run_pipeline env m0 w)))"
    by (simp add: run_pipeline_fresh [OF fresh] Let_def HumanMessage_def split: sum.splits)
qed

theorem agent_messages_are_human_and_named_witness:
  "length (events (fst (run_pipeline stub_env (image_message jpeg_head) new_world))) = 2
   \<and> list_all (\<lambda>(node, upd). list_all (\<lambda>m. msg_class m = Human \<and> msg_name m = Some node)
                   (messages upd) \<and> length (messages upd) = 1)
        (events (fst (run_pipeline stub_env (image_message jpeg_head) new_world)))"
proof -
  have two: "length (events (fst (run_pipeline stub_env (image_message jpeg_head) new_world))) = 2"
    by (simp add: stub_run Let_def)
  have named: "list_all (\<lambda>(node, upd).
      list_all (\<lambda>m. msg_class m = Human \<and> msg_name m = Some node) (messages upd)
      \<and> length (messages upd) = 1)
      (events (fst (run_pipeline stub_env (image_message jpeg_head) new_world)))"
    using agent_messages_are_human_and_named
      [of stub_env "\<lparr>messages = []\<rparr>" analysis_agent "''Analysis Agent''" new_world
        "image_message jpeg_head"]
    by blast
  from two named show ?thesis ..
qed

section \<open>Base64 and the data URI\<close>

lemma distinct_alphabet: "distinct b64_alphabet"
  by (simp add: b64_alphabet_def)

lemma length_alphabet: "length b64_alphabet = 64"
  by (simp add: b64_alphabet_def)

lemma index_of_nth: "distinct xs \<Longrightarrow> i < length xs \<Longrightarrow> index_of (xs ! i) xs = Some i"
proof (induction xs arbitrary: i)
  case Nil
  then show ?case by simp
next
  case (Cons y ys)
  show ?case
  proof (cases i)
    case 0
    then show ?thesis by simp
  next
    case (Suc j)
    with Cons.prems have "j < length ys" "distinct ys" "ys ! j \<noteq> y"
      by auto
    with Cons.IH Suc show ?thesis by auto
  qed
qed

lemma b64_value_char: "n < 64 \<Longrightarrow> b64_value (b64_char n) = Some n"
  by (simp add: b64_value_def b64_char_def index_of_nth distinct_alphabet length_alphabet)

lemma b64_char_in: "b64_char n \<in> set b64_alphabet"
  by (simp add: b64_char_def length_alphabet)

lemma not_in_alphabet: "CHR ''='' \<notin> set b64_alphabet" "CHR '','' \<notin> set b64_alphabet"
  by (simp_all add: b64_alphabet_def)

lemma b64_char_neq: "b64_char n \<noteq> CHR ''=''" "b64_char n \<noteq> CHR '',''"
  using b64_char_in [of n] not_in_alphabet by metis+

lemma unat_byte: "unat (a :: byte) < 256"
  using unsigned_less [of a, where ?'a = nat] by simp

lemma byte_hi: "of_nat (unat a div 4 * 4 + (unat a mod 4 * 16 + x) div 16) = (a :: byte)"
  if "x < 16" for x
proof -
  have "(unat a mod 4 * 16 + x) div 16 = unat a mod 4"
    using that by simp
  then show ?thesis by simp
qed

lemma byte_mid:
  "of_nat ((y * 16 + unat b div 16) mod 16 * 16 + (unat b mod 16 * 4 + x) div 4) = (b :: byte)"
  if "x < 4" for x y
proof -
  have "unat b div 16 < 16"
    using unat_byte [of b] by simp
  then have "(y * 16 + unat b div 16) mod 16 = unat b div 16"
    by simp
  moreover have "(unat b mod 16 * 4 + x) div 4 = unat b mod 16"
    using that by simp
  ultimately show ?thesis by simp
qed

lemma byte_lo: "of_nat ((y * 4 + unat c div 64) mod 4 * 64 + unat c mod 64) = (c :: byte)" for y
proof -
  have "unat c div 64 < 4"
    using unat_byte [of c] by simp
  then have "(y * 4 + unat c div 64) mod 4 = unat c div 64"
    by simp
  then show ?thesis by simp
qed

lemma sextet_bounds:
  "unat (a :: byte) div 4 < 64"
  "unat (a :: byte) mod 4 * 16 + unat (b :: byte) div 16 < 64"
  "unat (b :: byte) mod 16 * 4 + unat (c :: byte) div 64 < 64"
  "unat (a :: byte) mod 4 * 16 < 64"
  "unat (b :: byte) mod 16 * 4 < 64"
  "unat (c :: byte) mod 64 < 64"
  using unat_byte [of a] unat_byte [of b] unat_byte [of c] by simp_all

lemma b64decode_b64encode: "b64decode (b64encode bs) = Some bs"
proof (induction bs rule: b64encode.induct)
  case 1
  show ?case by simp
next
  case (2 a)
  show ?case
    using byte_hi [of 0 a] by (simp add: b64_value_char sextet_bounds)
next
  case (3 a b)
  show ?case
    using byte_hi [of "unat b div 16" a] byte_mid [of 0 "unat a mod 4" b] unat_byte [of b]
    by (simp add: b64_value_char sextet_bounds b64_char_neq)
next
  case (4 a b c rest)
  have "unat b div 16 < 16" "unat c div 64 < 4"
    using unat_byte [of b] unat_byte [of c] by simp_all
  then show ?case
    using 4 byte_hi [of "unat b div 16" a] byte_mid [of "unat c div 64" "unat a mod 4" b]
      byte_lo [of "unat b mod 16" c]
    by (simp add: b64_value_char sextet_bounds b64_char_neq)
qed

lemma no_comma_b64encode: "CHR '','' \<notin> set (b64encode bs)"
  by (induction bs rule: b64encode.induct) (simp_all add: b64_char_neq [symmetric])

lemma split_data_uri_jpeg:
  "split_data_uri (data_uri file_bytes) = Some (''image/jpeg'', b64encode file_bytes)"
proof -
  have "takeWhile (\<lambda>c. c \<noteq> CHR '','') (b64encode file_bytes) = b64encode file_bytes"
    using no_comma_b64encode [of file_bytes] by (auto simp: takeWhile_eq_all_conv)
  then show ?thesis
    by (simp add: split_data_uri_def data_uri_def)
qed

text \<open>
  C5. Whatever bytes were read from the image file, decoding the data URI built from them
  gives the media type of the URI and the same bytes again; the image message carries
  exactly that URI.
\<close>

theorem data_uri_round_trip:
  "decode_data_uri (data_uri file_bytes) = Some (''image/jpeg'', file_bytes)
   \<and> msg_content (image_message file_bytes) = Blocks [ImageUrl (data_uri file_bytes)]"
  by (simp add: decode_data_uri_def split_data_uri_jpeg b64decode_b64encode
      image_message_def HumanMessage_def)

section \<open>The agents of the notebook\<close>

text \<open>
  C9. Both agents are built from \<open>creative_prompt\<close>: their prompt templates are equal,
  \<open>analysis_prompt\<close> is a different text that occurs in neither, and the Analyst agent is
  the Creator agent with the other chat model; the two nodes, which are all the nodes of
  the graph, bind different names.
\<close>

theorem both_agents_share_creative_prompt:
  "analysis_agent = create_agent analysis_llm creative_prompt
   \<and> creative_agent = create_agent creative_llm creative_prompt
   \<and> seq_prompt analysis_agent = seq_prompt creative_agent
   \<and> SystemTemplate analysis_prompt \<notin> set (seq_prompt analysis_agent)
   \<and> SystemTemplate analysis_prompt \<notin> set (seq_prompt creative_agent)
   \<and> analysis_prompt \<noteq> creative_prompt
   \<and> analysis_agent = creative_agent\<lparr>seq_llm := analysis_llm\<rparr>
   \<and> model (seq_llm analysis_agent) \<noteq> model (seq_llm creative_agent)
   \<and> bound_name analysis_node \<noteq> bound_name creative_node
   \<and> map (bound_agent \<circ> snd) (nodes graph_builder) = [analysis_agent, creative_agent]"
  by (simp add: analysis_agent_def creative_agent_def create_agent_def analysis_prompt_def
      creative_prompt_def analysis_llm_def creative_llm_def ChatOllama_def analysis_node_def
      creative_node_def nodes_graph_builder)


end
